theory Spec2Isabelle
  imports Main "HOL-Library.Word" "HOL-Library.Sublist" "HOL-Library.AList"
    "HOL-Library.Monad_Syntax"
begin

section \<open>Data model of \<open>shared/run_diff.go\<close>\<close>

text \<open>
  Go's \<open>int\<close> is a 64-bit two's complement integer on the platforms the dashboard runs on:
  subtraction and negation wrap around, and \<open>d > 0\<close> is the signed comparison.
\<close>

type_synonym go_int = "64 word"

text \<open>
  A results summary is a Go \<open>map[string][]int\<close>. The engine both looks keys up and ranges
  over the map, and Go leaves the order of a range loop to the runtime, so a map is given
  as the list of its entries in the order in which the range loop visits them; lookups go
  through \<open>map_of\<close>. A list is a Go map when no key occurs twice (\<open>go_map\<close>). The
  empty list stands for the empty map and for the nil map, which Go reads alike.
\<close>

type_synonym counts = "go_int list"
type_synonym summary = "(string \<times> counts) list"

definition go_map :: "('k \<times> 'v) list \<Rightarrow> bool" where
  "go_map m = distinct (map fst m)"

text \<open>
  The rename map is a \<open>map[string]string\<close> that may be nil: \<open>None\<close> is the nil map.
\<close>

type_synonym renames = "(string \<times> string) list"

text \<open>
  The path filter is a \<open>mapset.Set\<close> interface value holding strings: \<open>None\<close> is the nil
  interface, \<open>Some ps\<close> a set whose iterator yields the elements \<open>ps\<close>.
\<close>

type_synonym pathset = "string list option"

text \<open>
  Modelled from the spec: the struct \<open>DiffFilterParam\<close> is declared in another file of the
  package; it has the four boolean fields that \<open>run_diff.go\<close> reads and sets.
\<close>

record DiffFilterParam =
  Added :: bool
  Deleted :: bool
  Changed :: bool
  Unchanged :: bool

text \<open>The result map of the engine, \<open>map[string][]int\<close>, is only written by key.\<close>

type_synonym diff = "string \<rightharpoonup> counts"

section \<open>The helpers\<close>

text \<open>
  \<open>xs[i]\<close> on a slice panics when \<open>i\<close> is out of range; \<open>None\<close> is the run-time panic
  throughout.
\<close>

definition index :: "counts \<Rightarrow> nat \<Rightarrow> go_int option" where
  "index xs i = (if i < length xs then Some (xs ! i) else None)"

text \<open>\<open>func max(x int, y int) int\<close>, on signed integers.\<close>

definition max_int :: "go_int \<Rightarrow> go_int \<Rightarrow> go_int" where
  "max_int x y = (if x <s y then y else x)"

text \<open>
  \<open>anyPathMatches\<close>: \<open>strings.Index(testPath, path) == 0\<close> holds exactly when \<open>path\<close> is
  a prefix of \<open>testPath\<close> (the empty string is found at index 0 of every string).
\<close>

fun anyPathMatches_loop :: "string list \<Rightarrow> string \<Rightarrow> bool" where
  "anyPathMatches_loop [] testPath = False"
| "anyPathMatches_loop (path # rest) testPath =
     (if prefix path testPath then True else anyPathMatches_loop rest testPath)"

definition anyPathMatches :: "pathset \<Rightarrow> string \<Rightarrow> bool" where
  "anyPathMatches paths testPath =
     (case paths of
        None \<Rightarrow> True
      | Some ps \<Rightarrow> anyPathMatches_loop ps testPath)"

section \<open>The diff engine\<close>

text \<open>
  One round of a range loop of \<open>GetResultsDiff\<close> either reaches a \<open>continue\<close> (or falls
  through without writing), or assigns \<open>diff[test] = v\<close>, or panics.
\<close>

datatype step = Continue | Assign string counts

fun rangeLoop :: "('e \<Rightarrow> step option) \<Rightarrow> 'e list \<Rightarrow> diff \<Rightarrow> diff option" where
  "rangeLoop body [] diff = Some diff"
| "rangeLoop body (e # es) diff =
     (case body e of
        None \<Rightarrow> None
      | Some Continue \<Rightarrow> rangeLoop body es diff
      | Some (Assign test v) \<Rightarrow> rangeLoop body es (diff(test \<mapsto> v)))"

text \<open>Lines 193-198: the key under which a path of \<open>before\<close> is looked up and reported.\<close>

definition renamedTest :: "renames option \<Rightarrow> string \<Rightarrow> string" where
  "renamedTest renames test =
     (case renames of
        None \<Rightarrow> test
      | Some r \<Rightarrow> (case map_of r test of Some rename \<Rightarrow> rename | None \<Rightarrow> test))"

text \<open>
  Lines 210-235, once \<open>after[test]\<close> was found. The second operand of \<open>||\<close> is only
  evaluated when \<open>delta\<close> is zero.
\<close>

definition changedBranch ::
  "DiffFilterParam \<Rightarrow> string \<Rightarrow> counts \<Rightarrow> counts \<Rightarrow> step option" where
  "changedBranch flt test resultsBefore resultsAfter =
     (if \<not> Changed flt \<and> \<not> Unchanged flt then Some Continue
      else do {
        b0 \<leftarrow> index resultsBefore 0;
        a0 \<leftarrow> index resultsAfter 0;
        let delta = b0 - a0;
        changed \<leftarrow> (if delta \<noteq> 0 then Some True
                    else do {
                      b1 \<leftarrow> index resultsBefore 1;
                      a1 \<leftarrow> index resultsAfter 1;
                      Some (b1 \<noteq> a1)
                    });
        if (\<not> changed \<and> \<not> Unchanged flt) \<or> (changed \<and> \<not> Changed flt)
        then Some Continue
        else do {
          let d = a0 - b0;
          let improved = (if 0 <s d then d else 0);
          b1 \<leftarrow> index resultsBefore 1;
          let failingBefore = b1 - b0;
          a1 \<leftarrow> index resultsAfter 1;
          let failingAfter = a1 - a0;
          let d' = failingAfter - failingBefore;
          let regressed = (if 0 <s d' then d' else 0);
          Some (Assign test [improved, regressed, a1 - b1])
        }
      })"

text \<open>Lines 192-237: the body of the loop over \<open>before\<close>.\<close>

definition beforeLoopBody ::
  "summary \<Rightarrow> DiffFilterParam \<Rightarrow> pathset \<Rightarrow> renames option \<Rightarrow> string \<times> counts \<Rightarrow> step option" where
  "beforeLoopBody afterMap flt paths renames e =
     (case e of (test0, resultsBefore) \<Rightarrow>
      let test = renamedTest renames test0 in
      if \<not> anyPathMatches paths test then Some Continue
      else
        case map_of afterMap test of
          None \<Rightarrow>
            if \<not> Deleted flt then Some Continue
            else do {
              b1 \<leftarrow> index resultsBefore 1;
              Some (Assign test [0, 0, - b1])
            }
        | Some resultsAfter \<Rightarrow> changedBranch flt test resultsBefore resultsAfter)"

text \<open>Lines 243-249: is \<open>test\<close> the new name of some rename entry?\<close>

fun renamed_loop :: "renames \<Rightarrow> string \<Rightarrow> bool" where
  "renamed_loop [] test = False"
| "renamed_loop ((was, is) # rest) test =
     (if is = test then True else renamed_loop rest test)"

text \<open>Lines 240-262: the body of the loop over \<open>after\<close>.\<close>

definition afterLoopBody ::
  "summary \<Rightarrow> pathset \<Rightarrow> renames option \<Rightarrow> string \<times> counts \<Rightarrow> step option" where
  "afterLoopBody beforeMap paths renames e =
     (case e of (test, resultsAfter) \<Rightarrow>
      if (case renames of None \<Rightarrow> False | Some r \<Rightarrow> renamed_loop r test) then Some Continue
      else if \<not> anyPathMatches paths test then Some Continue
      else
        case map_of beforeMap test of
          Some _ \<Rightarrow> Some Continue
        | None \<Rightarrow>
            do {
              a0 \<leftarrow> index resultsAfter 0;
              a1 \<leftarrow> index resultsAfter 1;
              Some (Assign test [a0, a1 - a0, a1])
            })"

definition GetResultsDiff ::
  "summary \<Rightarrow> summary \<Rightarrow> DiffFilterParam \<Rightarrow> pathset \<Rightarrow> renames option \<Rightarrow> diff option" where
  "GetResultsDiff beforeMap afterMap flt paths renames =
     do {
       diff \<leftarrow> (if Deleted flt \<or> Changed flt
                then rangeLoop (beforeLoopBody afterMap flt paths renames) beforeMap Map.empty
                else Some Map.empty);
       if Added flt
       then rangeLoop (afterLoopBody beforeMap paths renames) afterMap diff
       else Some diff
     }"

text \<open>
  The engine reads \<open>resultsBefore[0]\<close>, \<open>resultsBefore[1]\<close>, \<open>resultsAfter[0]\<close> and
  \<open>resultsAfter[1]\<close> without a length check; \<open>counts_ok\<close> says that every array of a
  summary has the two entries \<open>[passed, total]\<close>.
\<close>

definition counts_ok :: "summary \<Rightarrow> bool" where
  "counts_ok m = list_all (\<lambda>e. 2 \<le> length (snd e)) m"

section \<open>Diff assembly\<close>

text \<open>
  Modelled from the spec: the struct \<open>TestRun\<close> is declared in another file of the
  package; \<open>run_diff.go\<close> reads its results location and its full revision hash.
\<close>

record TestRun =
  ResultsURL :: string
  FullRevisionHash :: string

record RunDiff =
  Before :: TestRun
  BeforeSummary :: summary
  After :: TestRun
  AfterSummary :: summary
  Differences :: diff
  Renames :: "renames option"

text \<open>One entry of \<open>comparison.Files\<close>, as read through the getters of go-github.\<close>

record CommitFile =
  Status :: string
  Filename :: string
  PreviousFilename :: string

text \<open>
  What the outside world answers. A Go \<open>error\<close> is the text of its \<open>Error()\<close>.
  \<open>FetchRunResultsJSON\<close> is the HTTP fetch and JSON decoding of a run's summary;
  \<open>IsFeatureEnabled\<close> and \<open>GetSecret\<close> read the datastore; \<open>CompareCommits\<close> is the
  GitHub client made from the secret, called with owner, repository, base and head, and
  answers a comparison pointer (\<open>None\<close> is nil) and an error (\<open>None\<close> is nil).
\<close>

record collaborators =
  FetchRunResultsJSON :: "TestRun \<Rightarrow> string + summary"
  IsFeatureEnabled :: "string \<Rightarrow> bool"
  GetSecret :: "string \<Rightarrow> string + string"
  CompareCommits ::
    "string \<Rightarrow> string \<Rightarrow> string \<Rightarrow> string \<Rightarrow> string \<Rightarrow> CommitFile list option \<times> string option"

text \<open>\<open>s[:7]\<close> panics when \<open>s\<close> has fewer than seven bytes.\<close>

definition slice7 :: "string \<Rightarrow> string option" where
  "slice7 s = (if 7 \<le> length s then Some (take 7 s) else None)"

text \<open>Lines 288-293; writing a key of a Go map replaces the value it had.\<close>

fun filesLoop :: "CommitFile list \<Rightarrow> renames \<Rightarrow> renames" where
  "filesLoop [] renames = renames"
| "filesLoop (file # rest) renames =
     (if Status file = ''renamed''
      then filesLoop rest
             (AList.update (''/'' @ PreviousFilename file) (''/'' @ Filename file) renames)
      else filesLoop rest renames)"

text \<open>
  \<open>getDiffRenames\<close>. Logging returns nothing, but its arguments are evaluated first:
  \<open>shaBefore[:7]\<close>, \<open>shaAfter[:7]\<close> and \<open>err.Error()\<close>, which panics on a nil error.
  The outer \<open>None\<close> is a panic, \<open>Some None\<close> the nil map.
\<close>

definition getDiffRenames :: "collaborators \<Rightarrow> string \<Rightarrow> string \<Rightarrow> renames option option" where
  "getDiffRenames c shaBefore shaAfter =
     (if shaBefore = shaAfter then Some None
      else
        case GetSecret c ''github-api-token'' of
          Inl err \<Rightarrow> Some None
        | Inr secret \<Rightarrow>
            (case CompareCommits c secret ''web-platform-tests'' ''wpt'' shaBefore shaAfter of
               (comparison, err) \<Rightarrow>
                 if err \<noteq> None \<or> comparison = None
                 then do {
                   slice7 shaBefore;
                   slice7 shaAfter;
                   err;
                   Some None
                 }
                 else
                   (case comparison of
                      None \<Rightarrow> None
                    | Some files \<Rightarrow>
                        let renames = filesLoop files [] in
                        if length renames < 1
                        then do {
                          slice7 shaBefore;
                          slice7 shaAfter;
                          Some (Some renames)
                        }
                        else Some (Some renames))))"

text \<open>
  \<open>GetRunsDiff\<close>: \<open>None\<close> is a panic, \<open>Some (Inl msg)\<close> the returned error with text
  \<open>msg\<close>, \<open>Some (Inr diff)\<close> the returned \<open>RunDiff\<close> with a nil error.
\<close>

definition GetRunsDiff ::
  "collaborators \<Rightarrow> TestRun \<Rightarrow> TestRun \<Rightarrow> DiffFilterParam \<Rightarrow> pathset \<Rightarrow> (string + RunDiff) option" where
  "GetRunsDiff c beforeRun afterRun flt paths =
     (case FetchRunResultsJSON c beforeRun of
        Inl err \<Rightarrow> Some (Inl (''Failed to fetch 'before' results: '' @ err))
      | Inr beforeJSON \<Rightarrow>
          (case FetchRunResultsJSON c afterRun of
             Inl err \<Rightarrow> Some (Inl (''Failed to fetch 'after' results: '' @ err))
           | Inr afterJSON \<Rightarrow> do {
               renames \<leftarrow> (if IsFeatureEnabled c ''diffRenames''
                           then getDiffRenames c (FullRevisionHash beforeRun) (FullRevisionHash afterRun)
                           else Some None);
               differences \<leftarrow> GetResultsDiff beforeJSON afterJSON flt paths renames;
               Some (Inr \<lparr>Before = beforeRun, BeforeSummary = beforeJSON,
                          After = afterRun, AfterSummary = afterJSON,
                          Differences = differences, Renames = renames\<rparr>)
             }))"

section \<open>The range loops\<close>

lemma rangeLoop_total:
  "(\<forall>e\<in>set es. body e \<noteq> None) \<Longrightarrow> \<exists>d'. rangeLoop body es d = Some d'"
  by (induction es arbitrary: d) (auto split: option.splits step.splits)

lemma rangeLoop_at:
  "rangeLoop body es d = Some d' \<Longrightarrow>
   (\<forall>e\<in>set es. \<forall>v'. body e = Some (Assign t v') \<longrightarrow> v' = v) \<Longrightarrow>
   d' t = (if \<exists>e\<in>set es. body e = Some (Assign t v) then Some v else d t)"
proof (induction es arbitrary: d)
  case Nil
  then show ?case by simp
next
  case (Cons e es)
  show ?case
  proof (cases "body e")
    case None
    with Cons.prems show ?thesis by simp
  next
    case (Some s)
    show ?thesis
    proof (cases s)
      case Continue
      with Some Cons show ?thesis by simp
    next
      case (Assign k w)
      with Some Cons.prems have run: "rangeLoop body es (d(k \<mapsto> w)) = Some d'"
        by simp
      from Cons.prems have rest: "\<forall>e\<in>set es. \<forall>v'. body e = Some (Assign t v') \<longrightarrow> v' = v"
        by simp
      note ih = Cons.IH [OF run rest]
      show ?thesis
      proof (cases "k = t")
        case True
        with Some Assign Cons.prems have "w = v" by simp
        with ih True Some Assign show ?thesis by simp
      next
        case False
        with ih Some Assign show ?thesis by auto
      qed
    qed
  qed
qed

lemma rangeLoop_untouched:
  "rangeLoop body es d = Some d' \<Longrightarrow> (\<forall>e\<in>set es. \<forall>v. body e \<noteq> Some (Assign t v)) \<Longrightarrow> d' t = d t"
  using rangeLoop_at [of body es d d' t undefined] by auto

lemma index_Cons [simp]:
  "index (a # xs) 0 = Some a" "index (a # b # xs) 1 = Some b" "index (a # b # xs) (Suc 0) = Some b"
  by (simp_all add: index_def)

lemma two_Cons: "2 \<le> length xs \<Longrightarrow> \<exists>a b rest. xs = a # b # rest"
  by (cases xs; cases "tl xs") auto

lemma changedBranch_total:
  assumes "2 \<le> length rb" and "2 \<le> length ra"
  shows "changedBranch flt test rb ra \<noteq> None"
proof -
  from assms obtain b0 b1 rb' a0 a1 ra' where "rb = b0 # b1 # rb'" "ra = a0 # a1 # ra'"
    by (blast dest: two_Cons)
  then show ?thesis
    by (simp add: changedBranch_def Let_def)
qed

lemma changedBranch_key:
  "changedBranch flt test rb ra = Some (Assign k v) \<Longrightarrow> k = test"
  by (auto simp: changedBranch_def Let_def split: if_splits Option.bind_splits)

lemma beforeLoopBody_total:
  assumes "counts_ok afterMap" and "2 \<le> length (snd e)"
  shows "beforeLoopBody afterMap flt paths renames e \<noteq> None"
proof (cases e)
  case (Pair test0 rb)
  with assms have rb: "2 \<le> length rb" by simp
  then obtain b0 b1 rb' where rb': "rb = b0 # b1 # rb'"
    by (blast dest: two_Cons)
  show ?thesis
  proof (cases "map_of afterMap (renamedTest renames test0)")
    case None
    with Pair rb' show ?thesis
      by (simp add: beforeLoopBody_def Let_def)
  next
    case (Some ra)
    then have "(renamedTest renames test0, ra) \<in> set afterMap"
      by (rule map_of_SomeD)
    with assms(1) have "2 \<le> length ra"
      by (auto simp: counts_ok_def list_all_iff)
    then have "changedBranch flt (renamedTest renames test0) rb ra \<noteq> None"
      using rb by (rule changedBranch_total [rotated])
    with Pair Some show ?thesis
      by (auto simp: beforeLoopBody_def Let_def)
  qed
qed

lemma beforeLoopBody_key:
  "beforeLoopBody afterMap flt paths renames e = Some (Assign k v) \<Longrightarrow>
   k = renamedTest renames (fst e) \<and> anyPathMatches paths k"
  by (cases e) (auto simp: beforeLoopBody_def Let_def split: if_splits option.splits Option.bind_splits dest: changedBranch_key)

lemma afterLoopBody_total:
  "2 \<le> length (snd e) \<Longrightarrow> afterLoopBody beforeMap paths renames e \<noteq> None"
  by (cases e) (auto simp: afterLoopBody_def split: option.splits dest!: two_Cons)

lemma afterLoopBody_key:
  "afterLoopBody beforeMap paths renames e = Some (Assign k v) \<Longrightarrow>
   k = fst e \<and> anyPathMatches paths k \<and> map_of beforeMap k = None \<and>
   (\<forall>r. renames = Some r \<longrightarrow> \<not> renamed_loop r k)"
  by (cases e) (auto simp: afterLoopBody_def split: if_splits option.splits Option.bind_splits)

lemma renamed_loop_iff: "renamed_loop r test \<longleftrightarrow> test \<in> snd ` set r"
  by (induction r test rule: renamed_loop.induct) auto

lemma anyPathMatches_loop_iff:
  "anyPathMatches_loop ps testPath \<longleftrightarrow> (\<exists>path\<in>set ps. prefix path testPath)"
  by (induction ps) auto

section \<open>The two passes of the engine\<close>

lemma go_map_unique:
  "go_map m \<Longrightarrow> map_of m k = Some v \<Longrightarrow> (k, v') \<in> set m \<Longrightarrow> v' = v"
  by (simp add: go_map_def)

lemma renamedTest_cases:
  "renamedTest renames k = k \<or> (\<exists>r. renames = Some r \<and> (k, renamedTest renames k) \<in> set r)"
  by (auto simp: renamedTest_def split: option.splits dest: map_of_SomeD)

lemma GetResultsDiff_SomeD:
  assumes "GetResultsDiff beforeMap afterMap flt paths renames = Some d"
  obtains d1 where
    "(if Deleted flt \<or> Changed flt
      then rangeLoop (beforeLoopBody afterMap flt paths renames) beforeMap Map.empty
      else Some Map.empty) = Some d1"
    "(if Added flt then rangeLoop (afterLoopBody beforeMap paths renames) afterMap d1
      else Some d1) = Some d"
  using assms by (auto simp: GetResultsDiff_def split: Option.bind_splits)

lemma beforeLoop_total:
  assumes "counts_ok beforeMap" and "counts_ok afterMap"
  shows "\<exists>d1. rangeLoop (beforeLoopBody afterMap flt paths renames) beforeMap d0 = Some d1"
proof (rule rangeLoop_total, rule ballI)
  fix e assume "e \<in> set beforeMap"
  with assms(1) have "2 \<le> length (snd e)"
    by (simp add: counts_ok_def list_all_iff)
  with assms(2) show "beforeLoopBody afterMap flt paths renames e \<noteq> None"
    by (rule beforeLoopBody_total)
qed

lemma afterLoop_total:
  assumes "counts_ok afterMap"
  shows "\<exists>d. rangeLoop (afterLoopBody beforeMap paths renames) afterMap d1 = Some d"
proof (rule rangeLoop_total, rule ballI)
  fix e assume "e \<in> set afterMap"
  with assms have "2 \<le> length (snd e)"
    by (simp add: counts_ok_def list_all_iff)
  then show "afterLoopBody beforeMap paths renames e \<noteq> None"
    by (rule afterLoopBody_total)
qed

lemma GetResultsDiff_total:
  assumes "counts_ok beforeMap" and "counts_ok afterMap"
  shows "\<exists>d. GetResultsDiff beforeMap afterMap flt paths renames = Some d"
proof -
  obtain d1 where d1:
    "(if Deleted flt \<or> Changed flt
      then rangeLoop (beforeLoopBody afterMap flt paths renames) beforeMap Map.empty
      else Some Map.empty) = Some d1"
    using beforeLoop_total [OF assms, of flt paths renames Map.empty] by (cases "Deleted flt \<or> Changed flt") auto
  obtain d where d:
    "(if Added flt then rangeLoop (afterLoopBody beforeMap paths renames) afterMap d1
      else Some d1) = Some d"
    using afterLoop_total [OF assms(2), of beforeMap paths renames d1] by (cases "Added flt") auto
  have "GetResultsDiff beforeMap afterMap flt paths renames = Some d"
    unfolding GetResultsDiff_def d1 using d by simp
  then show ?thesis by simp
qed

lemma first_pass_untouched:
  assumes "(if Deleted flt \<or> Changed flt
      then rangeLoop (beforeLoopBody afterMap flt paths renames) beforeMap Map.empty
      else Some Map.empty) = Some d1"
    and "\<forall>k\<in>fst ` set beforeMap. renamedTest renames k \<noteq> t \<or> \<not> anyPathMatches paths t"
  shows "d1 t = None"
proof (cases "Deleted flt \<or> Changed flt")
  case True
  with assms(1) have run: "rangeLoop (beforeLoopBody afterMap flt paths renames) beforeMap Map.empty = Some d1"
    by simp
  have "\<forall>e\<in>set beforeMap. \<forall>v. beforeLoopBody afterMap flt paths renames e \<noteq> Some (Assign t v)"
    using assms(2) by (auto dest!: beforeLoopBody_key)
  with run have "d1 t = Map.empty t"
    by (rule rangeLoop_untouched)
  then show ?thesis by simp
next
  case False
  with assms(1) show ?thesis by auto
qed

lemma second_pass_untouched:
  assumes "(if Added flt then rangeLoop (afterLoopBody beforeMap paths renames) afterMap d1
      else Some d1) = Some d"
    and "map_of afterMap t = None \<or> map_of beforeMap t \<noteq> None \<or> \<not> anyPathMatches paths t
         \<or> (\<exists>r. renames = Some r \<and> t \<in> snd ` set r)"
  shows "d t = d1 t"
proof (cases "Added flt")
  case True
  with assms(1) have run: "rangeLoop (afterLoopBody beforeMap paths renames) afterMap d1 = Some d"
    by simp
  have "\<forall>e\<in>set afterMap. \<forall>v. afterLoopBody beforeMap paths renames e \<noteq> Some (Assign t v)"
  proof (intro ballI allI notI)
    fix e v
    assume e: "e \<in> set afterMap" and "afterLoopBody beforeMap paths renames e = Some (Assign t v)"
    then have k: "t = fst e \<and> anyPathMatches paths t \<and> map_of beforeMap t = None \<and>
      (\<forall>r. renames = Some r \<longrightarrow> t \<notin> snd ` set r)"
      by (force dest!: afterLoopBody_key simp: renamed_loop_iff)
    with e have "map_of afterMap t \<noteq> None"
      by (metis image_eqI map_of_eq_None_iff)
    with k show False using assms(2) by auto
  qed
  with run show ?thesis
    by (rule rangeLoop_untouched)
next
  case False
  with assms(1) show ?thesis by simp
qed

lemma rangeLoop_keyed:
  assumes run: "rangeLoop body m d0 = Some d"
    and m: "go_map m"
    and key: "\<And>e k v. body e = Some (Assign k v) \<Longrightarrow> k = g (fst e)"
    and x: "map_of m t0 = Some x"
    and inj: "\<forall>k\<in>fst ` set m. g k = g t0 \<longrightarrow> k = t0"
  shows "d (g t0) = (case body (t0, x) of Some (Assign k v) \<Rightarrow> Some v | _ \<Rightarrow> d0 (g t0))"
proof -
  have only: "e = (t0, x)" if "e \<in> set m" and "body e = Some (Assign (g t0) v)" for e v
  proof -
    obtain k y where e: "e = (k, y)" by (cases e)
    from key [OF that(2)] e have same: "g k = g t0" by simp
    from that(1) e have "k \<in> fst ` set m" by force
    with inj have "g k = g t0 \<longrightarrow> k = t0" by (rule bspec)
    with same have k: "k = t0" by simp
    with that(1) e have "(t0, y) \<in> set m" by simp
    with m x have "y = x" by (rule go_map_unique)
    with k e show ?thesis by simp
  qed
  from x have mem: "(t0, x) \<in> set m" by (rule map_of_SomeD)
  show ?thesis
  proof (cases "\<exists>v. body (t0, x) = Some (Assign (g t0) v)")
    case True
    then obtain v where v: "body (t0, x) = Some (Assign (g t0) v)" ..
    have "\<forall>e\<in>set m. \<forall>v'. body e = Some (Assign (g t0) v') \<longrightarrow> v' = v"
      using only v by fastforce
    from rangeLoop_at [OF run this] mem v have "d (g t0) = Some v" by auto
    with v show ?thesis by simp
  next
    case False
    have "\<forall>e\<in>set m. \<forall>v. body e \<noteq> Some (Assign (g t0) v)"
      using only False by fastforce
    with run have "d (g t0) = d0 (g t0)" by (rule rangeLoop_untouched)
    moreover have "(case body (t0, x) of Some (Assign k v) \<Rightarrow> Some v | _ \<Rightarrow> d0 (g t0)) = d0 (g t0)"
    proof (cases "body (t0, x)")
      case None
      then show ?thesis by simp
    next
      case (Some s)
      show ?thesis
      proof (cases s)
        case Continue
        with Some show ?thesis by simp
      next
        case (Assign k v)
        with Some key [of "(t0, x)" k v] False show ?thesis by simp
      qed
    qed
    ultimately show ?thesis by simp
  qed
qed

lemma afterLoopBody_emit:
  assumes "map_of beforeMap t = None" and "anyPathMatches paths t"
    and "\<forall>r. renames = Some r \<longrightarrow> t \<notin> snd ` set r"
  shows "afterLoopBody beforeMap paths renames (t, aPassed # aTotal # rest) =
         Some (Assign t [aPassed, aTotal - aPassed, aTotal])"
  using assms by (simp add: afterLoopBody_def renamed_loop_iff split: option.splits)

lemma afterLoopBody_own_key:
  "afterLoopBody beforeMap paths renames e = Some (Assign k v) \<Longrightarrow> k = (\<lambda>k. k) (fst e)"
  by (simp add: afterLoopBody_key)

lemma beforeLoopBody_renamed_key:
  "beforeLoopBody afterMap flt paths renames e = Some (Assign k v) \<Longrightarrow> k = renamedTest renames (fst e)"
  by (simp add: beforeLoopBody_key)

lemma not_a_key: "map_of m t = None \<Longrightarrow> k \<in> fst ` set m \<Longrightarrow> k \<noteq> t"
  by (auto simp: map_of_eq_None_iff)

lemma renamedTest_target:
  "renamedTest renames k \<noteq> k \<Longrightarrow> \<exists>r. renames = Some r \<and> renamedTest renames k \<in> snd ` set r"
  using renamedTest_cases [of renames k] by force


lemma changedBranch_unchanged:
  "changedBranch flt test (p # q # r1) (p # q # r2) =
     Some (if Unchanged flt then Assign test [0, 0, 0] else Continue)"
  by (simp add: changedBranch_def Let_def word_sless_alt)

lemma changedBranch_changed:
  assumes "Changed flt" and "bPassed \<noteq> aPassed \<or> bTotal \<noteq> aTotal"
  shows "changedBranch flt test (bPassed # bTotal # r1) (aPassed # aTotal # r2) =
     Some (Assign test [max_int 0 (aPassed - bPassed),
                        max_int 0 ((aTotal - aPassed) - (bTotal - bPassed)),
                        aTotal - bTotal])"
  using assms by (auto simp: changedBranch_def Let_def max_int_def)

lemma beforeLoopBody_deleted:
  assumes "anyPathMatches paths (renamedTest renames t)"
    and "map_of afterMap (renamedTest renames t) = None"
  shows "beforeLoopBody afterMap flt paths renames (t, bPassed # bTotal # rest) =
     Some (if Deleted flt then Assign (renamedTest renames t) [0, 0, - bTotal] else Continue)"
  using assms by (simp add: beforeLoopBody_def Let_def)

lemma beforeLoopBody_both:
  assumes "anyPathMatches paths (renamedTest renames t)"
    and "map_of afterMap (renamedTest renames t) = Some resultsAfter"
  shows "beforeLoopBody afterMap flt paths renames (t, resultsBefore) =
     changedBranch flt (renamedTest renames t) resultsBefore resultsAfter"
  using assms by (simp add: beforeLoopBody_def Let_def)

section \<open>Arithmetic of the counts\<close>

text \<open>
  A summary holds counts with \<open>0 \<le> passed \<le> total\<close>. On such counts no subtraction
  of the engine wraps around: read as signed integers, the entries of the triples
  \<open>[improved, regressed, aTotal - bTotal]\<close>, \<open>[0, 0, -bTotal]\<close> and
  \<open>[aPassed, aTotal - aPassed, aTotal]\<close> are the differences and maxima of the
  mathematical integers.
\<close>

lemma sint_sub_exact:
  fixes a b :: go_int
  assumes "- (2 ^ 63) \<le> sint a - sint b" and "sint a - sint b < 2 ^ 63"
  shows "sint (a - b) = sint a - sint b"
  using assms by (simp add: sint_word_ariths signed_take_bit_int_eq_self)

lemma sint_bounds:
  fixes a :: go_int
  shows "- (2 ^ 63) \<le> sint a" and "sint a < 2 ^ 63"
  using sint_ge [of a] sint_lt [of a] by simp_all

lemma triple_exact:
  fixes bPassed bTotal aPassed aTotal :: go_int
  assumes "0 \<le>s bPassed" and "bPassed \<le>s bTotal" and "0 \<le>s aPassed" and "aPassed \<le>s aTotal"
  shows "sint (max_int 0 (aPassed - bPassed)) = max 0 (sint aPassed - sint bPassed)"
    and "sint (max_int 0 ((aTotal - aPassed) - (bTotal - bPassed))) =
         max 0 ((sint aTotal - sint aPassed) - (sint bTotal - sint bPassed))"
    and "sint (aTotal - bTotal) = sint aTotal - sint bTotal"
    and "sint (- bTotal) = - sint bTotal"
    and "sint (aTotal - aPassed) = sint aTotal - sint aPassed"
proof -
  from assms have b: "0 \<le> sint bPassed" "sint bPassed \<le> sint bTotal"
    and a: "0 \<le> sint aPassed" "sint aPassed \<le> sint aTotal"
    by (simp_all add: word_sle_eq)
  note bd = sint_bounds [of bPassed] sint_bounds [of bTotal] sint_bounds [of aPassed] sint_bounds [of aTotal]
  have p: "sint (aPassed - bPassed) = sint aPassed - sint bPassed"
    using a b bd by (intro sint_sub_exact) linarith+
  have fa: "sint (aTotal - aPassed) = sint aTotal - sint aPassed"
    using a b bd by (intro sint_sub_exact) linarith+
  have fb: "sint (bTotal - bPassed) = sint bTotal - sint bPassed"
    using a b bd by (intro sint_sub_exact) linarith+
  have f: "sint ((aTotal - aPassed) - (bTotal - bPassed)) =
      (sint aTotal - sint aPassed) - (sint bTotal - sint bPassed)"
    unfolding fa [symmetric] fb [symmetric]
    using a b bd fa fb by (intro sint_sub_exact) linarith+
  show "sint (max_int 0 (aPassed - bPassed)) = max 0 (sint aPassed - sint bPassed)"
    using p by (simp add: max_int_def word_sless_alt max_def)
  show "sint (max_int 0 ((aTotal - aPassed) - (bTotal - bPassed))) =
         max 0 ((sint aTotal - sint aPassed) - (sint bTotal - sint bPassed))"
    using f by (simp add: max_int_def word_sless_alt max_def)
  show "sint (aTotal - bTotal) = sint aTotal - sint bTotal"
    using a b bd by (intro sint_sub_exact) linarith+
  have "sint (0 - bTotal) = sint (0 :: go_int) - sint bTotal"
    using a b bd by (intro sint_sub_exact) simp_all
  then show "sint (- bTotal) = - sint bTotal"
    by simp
  show "sint (aTotal - aPassed) = sint aTotal - sint aPassed"
    by (rule fa)
qed

section \<open>Path scoping\<close>

text \<open>
  Claim C2, as the code has it. A test path is in scope exactly when the path filter is
  unset (the nil interface) or the path starts with at least one prefix of the set. A set
  that is present but empty puts no path in scope: the loop over its elements finds
  nothing and \<open>anyPathMatches\<close> returns false.
\<close>

theorem anyPathMatches_scope:
  "(anyPathMatches paths testPath \<longleftrightarrow>
     (case paths of None \<Rightarrow> True | Some ps \<Rightarrow> \<exists>path\<in>set ps. prefix path testPath))
   \<and> \<not> anyPathMatches (Some []) testPath"
  by (simp add: anyPathMatches_def anyPathMatches_loop_iff split: option.splits)

theorem anyPathMatches_scope_witness:
  "anyPathMatches (Some [''/css/'']) ''/css/a.html'' \<and>
   \<not> anyPathMatches (Some [''/css/'']) ''/html/foo.html'' \<and>
   anyPathMatches None ''/html/foo.html''"
  using anyPathMatches_scope [of "Some [''/css/'']" "''/css/a.html''"]
    anyPathMatches_scope [of "Some [''/css/'']" "''/html/foo.html''"]
    anyPathMatches_scope [of None "''/html/foo.html''"]
  by simp

text \<open>
  The claim as stated counts every path as in scope under an empty-but-present set; the
  code answers false there.
\<close>

theorem anyPathMatches_empty_set_counterexample:
  "\<not> anyPathMatches (Some []) ''/html/foo.html''"
  by (simp add: anyPathMatches_def)

text \<open>
  Claim C8. A path that matches no prefix of the path filter is never a key of the result
  of \<open>GetResultsDiff\<close>, whatever the summaries, the rename map and the diff filter are:
  the first loop tests the scope on the renamed path it would write, the second loop on
  the path of the after summary it would write. In particular, under the one prefix
  \<open>/css/\<close> the path \<open>/html/foo.html\<close> is never a key.
\<close>

theorem out_of_scope_never_emitted:
  "(GetResultsDiff beforeMap afterMap flt paths renames = Some d \<longrightarrow>
      \<not> anyPathMatches paths t \<longrightarrow> d t = None) \<and>
   (GetResultsDiff beforeMap afterMap flt (Some [''/css/'']) renames = Some d' \<longrightarrow>
      d' ''/html/foo.html'' = None)"
proof -
  have gen: "d t = None"
    if "GetResultsDiff beforeMap afterMap flt paths renames = Some d" and "\<not> anyPathMatches paths t"
    for paths d t
  proof -
    from that(1) obtain d1 where
      p1: "(if Deleted flt \<or> Changed flt
        then rangeLoop (beforeLoopBody afterMap flt paths renames) beforeMap Map.empty
        else Some Map.empty) = Some d1" and
      p2: "(if Added flt then rangeLoop (afterLoopBody beforeMap paths renames) afterMap d1
        else Some d1) = Some d"
      by (rule GetResultsDiff_SomeD)
    from p1 that(2) have "d1 t = None"
      by (intro first_pass_untouched) auto
    moreover from p2 that(2) have "d t = d1 t"
      by (intro second_pass_untouched) auto
    ultimately show ?thesis by simp
  qed
  have "\<not> anyPathMatches (Some [''/css/'']) ''/html/foo.html''"
    by (simp add: anyPathMatches_def)
  with gen show ?thesis by blast
qed

theorem out_of_scope_never_emitted_witness:
  "\<exists>d. GetResultsDiff
          [(''/html/foo.html'', [1, 2]), (''/css/a.html'', [1, 1])]
          [(''/html/foo.html'', [2, 2]), (''/css/b.html'', [1, 1])]
          \<lparr>Added = True, Deleted = True, Changed = True, Unchanged = True\<rparr>
          (Some [''/css/'']) None = Some d
       \<and> d ''/html/foo.html'' = None"
proof -
  let ?b = "[(''/html/foo.html'', [1, 2]), (''/css/a.html'', [1, 1])] :: summary"
  let ?a = "[(''/html/foo.html'', [2, 2]), (''/css/b.html'', [1, 1])] :: summary"
  let ?f = "\<lparr>Added = True, Deleted = True, Changed = True, Unchanged = True\<rparr>"
  have "counts_ok ?b" "counts_ok ?a"
    by (simp_all add: counts_ok_def)
  then obtain d where d: "GetResultsDiff ?b ?a ?f (Some [''/css/'']) None = Some d"
    using GetResultsDiff_total [of ?b ?a ?f "Some [''/css/'']" None] by auto
  with out_of_scope_never_emitted [where d' = d and beforeMap = ?b and afterMap = ?a
      and flt = ?f and renames = None]
  have "d ''/html/foo.html'' = None"
    by simp
  with d show ?thesis by simp
qed

section \<open>Classification of a path\<close>

text \<open>
  Claim C6. Let the count arrays of both summaries have their two entries and let the
  after summary be a map. A path that is in scope, is a key of the after summary with
  counts \<open>(aPassed, aTotal)\<close>, is not a key of the before summary and is not the new name
  of any rename entry is a key of the result exactly when \<open>filter.Added\<close> is set, and
  then its triple is \<open>[aPassed, aTotal - aPassed, aTotal]\<close>. The engine returns a result
  on these inputs.
\<close>

theorem added_path:
  assumes wf: "go_map afterMap" "counts_ok beforeMap" "counts_ok afterMap"
    and a: "map_of afterMap t = Some (aPassed # aTotal # rest)"
    and b: "map_of beforeMap t = None"
    and scope: "anyPathMatches paths t"
    and notarget: "\<forall>r. renames = Some r \<longrightarrow> t \<notin> snd ` set r"
  shows "\<exists>d. GetResultsDiff beforeMap afterMap flt paths renames = Some d \<and>
             d t = (if Added flt then Some [aPassed, aTotal - aPassed, aTotal] else None)"
proof -
  from GetResultsDiff_total [OF wf(2,3), of flt paths renames]
  obtain d where d: "GetResultsDiff beforeMap afterMap flt paths renames = Some d" by auto
  from d obtain d1 where
    p1: "(if Deleted flt \<or> Changed flt
      then rangeLoop (beforeLoopBody afterMap flt paths renames) beforeMap Map.empty
      else Some Map.empty) = Some d1" and
    p2: "(if Added flt then rangeLoop (afterLoopBody beforeMap paths renames) afterMap d1
      else Some d1) = Some d"
    by (rule GetResultsDiff_SomeD)
  have "\<forall>k\<in>fst ` set beforeMap. renamedTest renames k \<noteq> t \<or> \<not> anyPathMatches paths t"
  proof
    fix k assume "k \<in> fst ` set beforeMap"
    with b have "k \<noteq> t" by (rule not_a_key)
    show "renamedTest renames k \<noteq> t \<or> \<not> anyPathMatches paths t"
    proof (cases "renamedTest renames k = k")
      case True
      with \<open>k \<noteq> t\<close> show ?thesis by simp
    next
      case False
      from renamedTest_target [OF this] notarget show ?thesis by auto
    qed
  qed
  with p1 have d1: "d1 t = None" by (rule first_pass_untouched)
  have "d t = (if Added flt then Some [aPassed, aTotal - aPassed, aTotal] else None)"
  proof (cases "Added flt")
    case True
    with p2 have run: "rangeLoop (afterLoopBody beforeMap paths renames) afterMap d1 = Some d"
      by simp
    from rangeLoop_keyed [of "afterLoopBody beforeMap paths renames" afterMap d1 d "\<lambda>k. k" t
        "aPassed # aTotal # rest", OF run wf(1) afterLoopBody_own_key a]
    have "d t = (case afterLoopBody beforeMap paths renames (t, aPassed # aTotal # rest) of
        Some (Assign k v) \<Rightarrow> Some v | _ \<Rightarrow> d1 t)"
      by simp
    with afterLoopBody_emit [OF b scope notarget] True show ?thesis by simp
  next
    case False
    with p2 d1 show ?thesis by simp
  qed
  with d show ?thesis by simp
qed


theorem added_path_witness:
  "\<exists>d. GetResultsDiff [(''/a'', [1, 2])] [(''/a'', [1, 2]), (''/new'', [3, 5])]
          \<lparr>Added = True, Deleted = True, Changed = True, Unchanged = True\<rparr>
          (Some [''/'']) (Some [(''/x'', ''/y'')]) = Some d
       \<and> d ''/new'' = Some [3, 2, 5]"
  using added_path [of "[(''/a'', [1, 2]), (''/new'', [3, 5])]" "[(''/a'', [1, 2])]" "''/new''" 3 5 "[]"
      "Some [''/'']" "Some [(''/x'', ''/y'')]"
      "\<lparr>Added = True, Deleted = True, Changed = True, Unchanged = True\<rparr>"]
  by (simp add: go_map_def counts_ok_def anyPathMatches_def)

text \<open>
  Claim C7, as the code has it. The first loop reports a path of the before summary under
  its name after rename substitution: the renamed path when the rename map has an entry
  for it, the path itself otherwise. Let \<open>t\<close> be a key of the before summary with counts
  \<open>(bPassed, bTotal)\<close> whose substituted name is in scope and is not a key of the after
  summary, and let no other path of the before summary be substituted to the same name.
  Then the substituted name is a key of the result exactly when \<open>filter.Deleted\<close> is set,
  and then its triple is \<open>[0, 0, -bTotal]\<close>; for a path with no rename entry the
  substituted name is the path itself. The engine returns a result on these inputs.
\<close>

theorem deleted_path:
  assumes wf: "go_map beforeMap" "counts_ok beforeMap" "counts_ok afterMap"
    and b: "map_of beforeMap t = Some (bPassed # bTotal # rest)"
    and scope: "anyPathMatches paths (renamedTest renames t)"
    and a: "map_of afterMap (renamedTest renames t) = None"
    and inj: "\<forall>k\<in>fst ` set beforeMap. renamedTest renames k = renamedTest renames t \<longrightarrow> k = t"
  shows "\<exists>d. GetResultsDiff beforeMap afterMap flt paths renames = Some d \<and>
             d (renamedTest renames t) = (if Deleted flt then Some [0, 0, - bTotal] else None)"
proof -
  let ?t' = "renamedTest renames t"
  from GetResultsDiff_total [OF wf(2,3), of flt paths renames]
  obtain d where d: "GetResultsDiff beforeMap afterMap flt paths renames = Some d" by auto
  from d obtain d1 where
    p1: "(if Deleted flt \<or> Changed flt
      then rangeLoop (beforeLoopBody afterMap flt paths renames) beforeMap Map.empty
      else Some Map.empty) = Some d1" and
    p2: "(if Added flt then rangeLoop (afterLoopBody beforeMap paths renames) afterMap d1
      else Some d1) = Some d"
    by (rule GetResultsDiff_SomeD)
  have d1: "d1 ?t' = (if Deleted flt then Some [0, 0, - bTotal] else None)"
  proof (cases "Deleted flt \<or> Changed flt")
    case True
    with p1 have run: "rangeLoop (beforeLoopBody afterMap flt paths renames) beforeMap Map.empty = Some d1"
      by simp
    from rangeLoop_keyed [of "beforeLoopBody afterMap flt paths renames" beforeMap Map.empty d1
        "renamedTest renames" t "bPassed # bTotal # rest", OF run wf(1) beforeLoopBody_renamed_key b inj]
    have "d1 ?t' = (case beforeLoopBody afterMap flt paths renames (t, bPassed # bTotal # rest) of
        Some (Assign k v) \<Rightarrow> Some v | _ \<Rightarrow> None)"
      by simp
    then show ?thesis
      by (simp add: beforeLoopBody_deleted [OF scope a])
  next
    case False
    with p1 show ?thesis by auto
  qed
  from p2 a have "d ?t' = d1 ?t'"
    by (intro second_pass_untouched) auto
  with d d1 show ?thesis by simp
qed

theorem deleted_path_witness:
  "\<exists>d. GetResultsDiff [(''/a'', [1, 2]), (''/gone'', [3, 4])] [(''/b'', [2, 2])]
          \<lparr>Added = False, Deleted = True, Changed = False, Unchanged = False\<rparr>
          None (Some [(''/a'', ''/b'')]) = Some d
       \<and> d ''/gone'' = Some [0, 0, - 4]"
  using deleted_path [of "[(''/a'', [1, 2]), (''/gone'', [3, 4])]" "[(''/b'', [2, 2])]"
      "''/gone''" 3 4 "[]" None "Some [(''/a'', ''/b'')]"
      "\<lparr>Added = False, Deleted = True, Changed = False, Unchanged = False\<rparr>"]
  by (simp add: go_map_def counts_ok_def anyPathMatches_def renamedTest_def)

text \<open>
  The claim as stated lets the path have a rename entry whose target is absent from the
  after summary, and expects the path itself in the result; the code reports the deletion
  under the new name: here \<open>/c\<close> is the only key, \<open>/a\<close> is none.
\<close>

theorem deleted_path_renamed_counterexample:
  "GetResultsDiff [(''/a'', [1, 2])] []
     \<lparr>Added = False, Deleted = True, Changed = False, Unchanged = False\<rparr>
     None (Some [(''/a'', ''/c'')]) = Some [''/c'' \<mapsto> [0, 0, - 2]]"
  by (simp add: GetResultsDiff_def beforeLoopBody_def renamedTest_def anyPathMatches_def)

text \<open>
  Claim C1, as the code has it. Let \<open>t\<close> be in scope, a key of both summaries with the
  same counts, with no rename entry, and let no other path of the before summary be
  renamed to \<open>t\<close>. The loop over the before summary only runs when \<open>filter.Deleted\<close> or
  \<open>filter.Changed\<close> is set, so \<open>t\<close> is a key of the result exactly when
  \<open>filter.Unchanged\<close> is set together with \<open>filter.Deleted\<close> or \<open>filter.Changed\<close>, and
  then its triple is \<open>[0, 0, 0]\<close>. The engine returns a result on these inputs.
\<close>

theorem unchanged_path:
  assumes wf: "go_map beforeMap" "counts_ok beforeMap" "counts_ok afterMap"
    and b: "map_of beforeMap t = Some (nPassed # nTotal # restBefore)"
    and a: "map_of afterMap t = Some (nPassed # nTotal # restAfter)"
    and scope: "anyPathMatches paths t"
    and norename: "\<forall>r. renames = Some r \<longrightarrow> map_of r t = None"
    and inj: "\<forall>k\<in>fst ` set beforeMap. renamedTest renames k = t \<longrightarrow> k = t"
  shows "\<exists>d. GetResultsDiff beforeMap afterMap flt paths renames = Some d \<and>
             d t = (if Unchanged flt \<and> (Deleted flt \<or> Changed flt) then Some [0, 0, 0] else None)"
proof -
  from norename have same: "renamedTest renames t = t"
    by (cases renames) (simp_all add: renamedTest_def)
  from GetResultsDiff_total [OF wf(2,3), of flt paths renames]
  obtain d where d: "GetResultsDiff beforeMap afterMap flt paths renames = Some d" by auto
  from d obtain d1 where
    p1: "(if Deleted flt \<or> Changed flt
      then rangeLoop (beforeLoopBody afterMap flt paths renames) beforeMap Map.empty
      else Some Map.empty) = Some d1" and
    p2: "(if Added flt then rangeLoop (afterLoopBody beforeMap paths renames) afterMap d1
      else Some d1) = Some d"
    by (rule GetResultsDiff_SomeD)
  from p2 b have second: "d t = d1 t"
    by (intro second_pass_untouched) auto
  show ?thesis
  proof (cases "Deleted flt \<or> Changed flt")
    case False
    with p1 have "d1 t = None" by auto
    with second d False show ?thesis by simp
  next
    case True
    with p1 have run: "rangeLoop (beforeLoopBody afterMap flt paths renames) beforeMap Map.empty = Some d1"
      by simp
    from inj same have inj': "\<forall>k\<in>fst ` set beforeMap.
        renamedTest renames k = renamedTest renames t \<longrightarrow> k = t"
      by simp
    from scope a same have body: "beforeLoopBody afterMap flt paths renames (t, nPassed # nTotal # restBefore) =
        changedBranch flt t (nPassed # nTotal # restBefore) (nPassed # nTotal # restAfter)"
      using beforeLoopBody_both [of paths renames t afterMap "nPassed # nTotal # restAfter" flt
          "nPassed # nTotal # restBefore"]
      by simp
    from rangeLoop_keyed [of "beforeLoopBody afterMap flt paths renames" beforeMap Map.empty d1
        "renamedTest renames" t "nPassed # nTotal # restBefore", OF run wf(1) beforeLoopBody_renamed_key b inj']
    have "d1 t = (if Unchanged flt then Some [0, 0, 0] else None)"
      by (simp add: same body changedBranch_unchanged)
    with second d True show ?thesis by simp
  qed
qed

theorem unchanged_path_witness:
  "\<exists>d. GetResultsDiff [(''/a'', [1, 2]), (''/same'', [3, 4])] [(''/same'', [3, 4]), (''/b'', [2, 2])]
          \<lparr>Added = True, Deleted = False, Changed = True, Unchanged = True\<rparr>
          (Some [''/'']) (Some [(''/a'', ''/b'')]) = Some d
       \<and> d ''/same'' = Some [0, 0, 0]"
  using unchanged_path [of "[(''/a'', [1, 2]), (''/same'', [3, 4])]" "[(''/same'', [3, 4]), (''/b'', [2, 2])]"
      "''/same''" 3 4 "[]" "[]" "Some [''/'']" "Some [(''/a'', ''/b'')]"
      "\<lparr>Added = True, Deleted = False, Changed = True, Unchanged = True\<rparr>"]
  by (simp add: go_map_def counts_ok_def anyPathMatches_def renamedTest_def)

text \<open>
  With \<open>Unchanged\<close> set and the three other flags cleared, no loop runs and the result
  is empty, although the path is unchanged.
\<close>

theorem unchanged_only_counterexample:
  "GetResultsDiff [(''/t'', [1, 1])] [(''/t'', [1, 1])]
     \<lparr>Added = False, Deleted = False, Changed = False, Unchanged = True\<rparr> None None
   = Some Map.empty"
  by (simp add: GetResultsDiff_def)

text \<open>
  The changed branch, one path at a time. Let the name of \<open>t\<close> after rename substitution
  be in scope and a key of the after summary with counts \<open>(aPassed, aTotal)\<close>, let
  \<open>filter.Changed\<close> be set and let the before counts \<open>(bPassed, bTotal)\<close> of \<open>t\<close> differ
  from them. Then the round of the first loop for \<open>t\<close> assigns, under the substituted
  name, the triple \<open>[max(0, aPassed - bPassed), max(0, (aTotal - aPassed) - (bTotal -
  bPassed)), aTotal - bTotal]\<close>. When \<open>t\<close> is the only path of the before summary with
  that substituted name, this is the triple of that name in the result, which exists; the
  section on the iteration order shows what happens when it is not the only one. The
  first two components can be nonzero together: \<open>[1, 2]\<close> against \<open>[2, 4]\<close> gives
  \<open>[1, 1, 2]\<close>. On counts with \<open>0 \<le> passed \<le> total\<close> the machine arithmetic agrees
  with the integers.
\<close>

lemma changed_path:
  assumes scope: "anyPathMatches paths (renamedTest renames t)"
    and a: "map_of afterMap (renamedTest renames t) = Some (aPassed # aTotal # restAfter)"
    and ch: "Changed flt"
    and differ: "bPassed \<noteq> aPassed \<or> bTotal \<noteq> aTotal"
  shows "beforeLoopBody afterMap flt paths renames (t, bPassed # bTotal # restBefore) =
           Some (Assign (renamedTest renames t)
             [max_int 0 (aPassed - bPassed),
              max_int 0 ((aTotal - aPassed) - (bTotal - bPassed)),
              aTotal - bTotal])
       \<and> (go_map beforeMap \<longrightarrow> counts_ok beforeMap \<longrightarrow> counts_ok afterMap \<longrightarrow>
          map_of beforeMap t = Some (bPassed # bTotal # restBefore) \<longrightarrow>
          (\<forall>k\<in>fst ` set beforeMap. renamedTest renames k = renamedTest renames t \<longrightarrow> k = t) \<longrightarrow>
          (\<exists>d. GetResultsDiff beforeMap afterMap flt paths renames = Some d \<and>
               d (renamedTest renames t) =
                 Some [max_int 0 (aPassed - bPassed),
                       max_int 0 ((aTotal - aPassed) - (bTotal - bPassed)),
                       aTotal - bTotal]))
       \<and> GetResultsDiff [(''/t'', [1, 2])] [(''/t'', [2, 4])]
            \<lparr>Added = False, Deleted = False, Changed = True, Unchanged = False\<rparr> None None
          = Some [''/t'' \<mapsto> [1, 1, 2]]
       \<and> (0 \<le>s bPassed \<longrightarrow> bPassed \<le>s bTotal \<longrightarrow> 0 \<le>s aPassed \<longrightarrow> aPassed \<le>s aTotal \<longrightarrow>
          map sint [max_int 0 (aPassed - bPassed),
                    max_int 0 ((aTotal - aPassed) - (bTotal - bPassed)),
                    aTotal - bTotal] =
            [max 0 (sint aPassed - sint bPassed),
             max 0 ((sint aTotal - sint aPassed) - (sint bTotal - sint bPassed)),
             sint aTotal - sint bTotal])"
proof (intro conjI impI)
  let ?t' = "renamedTest renames t"
  let ?triple = "[max_int 0 (aPassed - bPassed),
                  max_int 0 ((aTotal - aPassed) - (bTotal - bPassed)),
                  aTotal - bTotal]"
  show body: "beforeLoopBody afterMap flt paths renames (t, bPassed # bTotal # restBefore) =
      Some (Assign ?t' ?triple)"
    by (simp add: beforeLoopBody_both [OF scope a] changedBranch_changed [OF ch differ])
  show "GetResultsDiff [(''/t'', [1, 2])] [(''/t'', [2, 4])]
            \<lparr>Added = False, Deleted = False, Changed = True, Unchanged = False\<rparr> None None
          = Some [''/t'' \<mapsto> [1, 1, 2]]"
    by (simp add: GetResultsDiff_def beforeLoopBody_def changedBranch_def renamedTest_def
        anyPathMatches_def word_sless_alt)
  show "map sint ?triple =
      [max 0 (sint aPassed - sint bPassed),
       max 0 ((sint aTotal - sint aPassed) - (sint bTotal - sint bPassed)),
       sint aTotal - sint bTotal]"
    if "0 \<le>s bPassed" and "bPassed \<le>s bTotal" and "0 \<le>s aPassed" and "aPassed \<le>s aTotal"
    using that by (simp add: triple_exact)
  assume wf: "go_map beforeMap" "counts_ok beforeMap" "counts_ok afterMap"
    and b: "map_of beforeMap t = Some (bPassed # bTotal # restBefore)"
    and inj: "\<forall>k\<in>fst ` set beforeMap. renamedTest renames k = renamedTest renames t \<longrightarrow> k = t"
  from GetResultsDiff_total [OF wf(2,3), of flt paths renames]
  obtain d where d: "GetResultsDiff beforeMap afterMap flt paths renames = Some d" by auto
  from d obtain d1 where
    p1: "(if Deleted flt \<or> Changed flt
      then rangeLoop (beforeLoopBody afterMap flt paths renames) beforeMap Map.empty
      else Some Map.empty) = Some d1" and
    p2: "(if Added flt then rangeLoop (afterLoopBody beforeMap paths renames) afterMap d1
      else Some d1) = Some d"
    by (rule GetResultsDiff_SomeD)
  from p1 ch have run: "rangeLoop (beforeLoopBody afterMap flt paths renames) beforeMap Map.empty = Some d1"
    by simp
  from rangeLoop_keyed [of "beforeLoopBody afterMap flt paths renames" beforeMap Map.empty d1
      "renamedTest renames" t "bPassed # bTotal # restBefore", OF run wf(1) beforeLoopBody_renamed_key b inj]
  have first: "d1 ?t' = Some ?triple"
    by (simp add: body)
  have "map_of beforeMap ?t' \<noteq> None \<or> (\<exists>r. renames = Some r \<and> ?t' \<in> snd ` set r)"
  proof (cases "?t' = t")
    case True
    with b show ?thesis by simp
  next
    case False
    from renamedTest_target [OF this] show ?thesis by simp
  qed
  with p2 have "d ?t' = d1 ?t'"
    by (intro second_pass_untouched) auto
  with d first show "\<exists>d. GetResultsDiff beforeMap afterMap flt paths renames = Some d \<and>
      d ?t' = Some ?triple"
    by simp
qed

lemma changed_path_instance:
  "beforeLoopBody [(''/b'', [5, 12])]
     \<lparr>Added = True, Deleted = False, Changed = True, Unchanged = False\<rparr>
     None (Some [(''/a'', ''/b'')]) (''/a'', [2, 10])
     = Some (Assign ''/b'' [3, 0, 2]) \<and>
   (\<exists>d. GetResultsDiff [(''/a'', [2, 10])] [(''/b'', [5, 12])]
          \<lparr>Added = True, Deleted = False, Changed = True, Unchanged = False\<rparr>
          None (Some [(''/a'', ''/b'')]) = Some d
        \<and> d ''/b'' = Some [3, 0, 2])"
  using changed_path [of None "Some [(''/a'', ''/b'')]" "''/a''" "[(''/b'', [5, 12])]" 5 12 "[]"
      "\<lparr>Added = True, Deleted = False, Changed = True, Unchanged = False\<rparr>" 2 10 "[]"
      "[(''/a'', [2, 10])]"]
  by (simp add: go_map_def counts_ok_def anyPathMatches_def renamedTest_def max_int_def word_sless_alt)

section \<open>Renames\<close>

text \<open>
  Claim C5. For \<open>before = {/a: [1, 2]}\<close>, \<open>after = {/b: [2, 2]}\<close> and
  \<open>renames = {/a: /b}\<close>, every filter with \<open>Changed\<close> set (and every path filter with
  \<open>/b\<close> in scope) gives exactly \<open>{/b: [1, 0, 0]}\<close>. And a path that is the new name of
  some rename entry is never emitted by the added pass: its round of the second loop
  reaches \<open>continue\<close>, and the loop leaves the entry of that path as it found it.
\<close>

theorem rename_example:
  "(Changed flt \<longrightarrow> anyPathMatches paths ''/b'' \<longrightarrow>
      GetResultsDiff [(''/a'', [1, 2])] [(''/b'', [2, 2])] flt paths (Some [(''/a'', ''/b'')])
        = Some [''/b'' \<mapsto> [1, 0, 0]]) \<and>
   (t \<in> snd ` set r \<longrightarrow>
      afterLoopBody beforeMap paths (Some r) (t, resultsAfter) = Some Continue \<and>
      (rangeLoop (afterLoopBody beforeMap paths (Some r)) afterMap d0 = Some d \<longrightarrow> d t = d0 t))"
proof (intro conjI impI)
  assume "Changed flt" and "anyPathMatches paths ''/b''"
  then show "GetResultsDiff [(''/a'', [1, 2])] [(''/b'', [2, 2])] flt paths (Some [(''/a'', ''/b'')])
        = Some [''/b'' \<mapsto> [1, 0, 0]]"
    by (simp add: GetResultsDiff_def beforeLoopBody_def afterLoopBody_def changedBranch_def
        renamedTest_def word_sless_alt)
next
  assume "t \<in> snd ` set r"
  then show "afterLoopBody beforeMap paths (Some r) (t, resultsAfter) = Some Continue"
    by (simp add: afterLoopBody_def renamed_loop_iff)
next
  assume t: "t \<in> snd ` set r"
    and run: "rangeLoop (afterLoopBody beforeMap paths (Some r)) afterMap d0 = Some d"
  have "\<forall>e\<in>set afterMap. \<forall>v. afterLoopBody beforeMap paths (Some r) e \<noteq> Some (Assign t v)"
  proof (intro ballI allI notI)
    fix e v
    assume "afterLoopBody beforeMap paths (Some r) e = Some (Assign t v)"
    from afterLoopBody_key [OF this] have "\<not> renamed_loop r t" by auto
    with t show False by (simp add: renamed_loop_iff)
  qed
  with run show "d t = d0 t" by (rule rangeLoop_untouched)
qed

theorem rename_example_witness:
  "GetResultsDiff [(''/a'', [1, 2])] [(''/b'', [2, 2])]
     \<lparr>Added = True, Deleted = False, Changed = True, Unchanged = False\<rparr> None
     (Some [(''/a'', ''/b'')]) = Some [''/b'' \<mapsto> [1, 0, 0]] \<and>
   afterLoopBody [(''/a'', [1, 2])] None (Some [(''/a'', ''/b'')]) (''/b'', [2, 2]) = Some Continue"
  using rename_example [of "\<lparr>Added = True, Deleted = False, Changed = True, Unchanged = False\<rparr>"
      None "''/b''" "[(''/a'', ''/b'')]" "[(''/a'', [1, 2])]" "[2, 2]"]
  by (simp add: anyPathMatches_def)

section \<open>Bounds of the count arrays\<close>

text \<open>
  Claim C10. The engine indexes the count arrays at 0 and 1 without a length check. When
  every array of both summaries has at least two entries, every such access is in bounds
  and \<open>GetResultsDiff\<close> returns a result. The precondition cannot be dropped: an array
  that is too short in the before summary (deleted branch, changed branch) or in the
  after summary (added pass) makes the engine panic.
\<close>

theorem count_arrays_in_bounds:
  "(counts_ok beforeMap \<longrightarrow> counts_ok afterMap \<longrightarrow>
      (\<exists>d. GetResultsDiff beforeMap afterMap flt paths renames = Some d)) \<and>
   GetResultsDiff [(''/t'', [])] []
     \<lparr>Added = False, Deleted = True, Changed = False, Unchanged = False\<rparr> None None = None \<and>
   GetResultsDiff [(''/t'', [1])] [(''/t'', [1, 2])]
     \<lparr>Added = False, Deleted = False, Changed = True, Unchanged = True\<rparr> None None = None \<and>
   GetResultsDiff [] [(''/t'', [5])]
     \<lparr>Added = True, Deleted = False, Changed = False, Unchanged = False\<rparr> None None = None"
proof (intro conjI impI)
  assume "counts_ok beforeMap" and "counts_ok afterMap"
  then show "\<exists>d. GetResultsDiff beforeMap afterMap flt paths renames = Some d"
    by (rule GetResultsDiff_total)
next
  show "GetResultsDiff [(''/t'', [])] []
     \<lparr>Added = False, Deleted = True, Changed = False, Unchanged = False\<rparr> None None = None"
    by (simp add: GetResultsDiff_def beforeLoopBody_def renamedTest_def anyPathMatches_def index_def)
next
  show "GetResultsDiff [(''/t'', [1])] [(''/t'', [1, 2])]
     \<lparr>Added = False, Deleted = False, Changed = True, Unchanged = True\<rparr> None None = None"
    by (simp add: GetResultsDiff_def beforeLoopBody_def changedBranch_def renamedTest_def
        anyPathMatches_def index_def)
next
  show "GetResultsDiff [] [(''/t'', [5])]
     \<lparr>Added = True, Deleted = False, Changed = False, Unchanged = False\<rparr> None None = None"
    by (simp add: GetResultsDiff_def afterLoopBody_def anyPathMatches_def index_def)
qed

theorem count_arrays_in_bounds_witness:
  "counts_ok [(''/a'', [1, 2]), (''/b'', [0, 0, 7])] \<and> counts_ok [(''/b'', [2, 2])] \<and>
   (\<exists>d. GetResultsDiff [(''/a'', [1, 2]), (''/b'', [0, 0, 7])] [(''/b'', [2, 2])]
          \<lparr>Added = True, Deleted = True, Changed = True, Unchanged = True\<rparr> None None = Some d)"
  using count_arrays_in_bounds [of "[(''/a'', [1, 2]), (''/b'', [0, 0, 7])]" "[(''/b'', [2, 2])]"
      "\<lparr>Added = True, Deleted = True, Changed = True, Unchanged = True\<rparr>" None None]
  by (simp add: counts_ok_def)

section \<open>Iteration order\<close>

text \<open>
  Claim C3. \<open>GetResultsDiff\<close> is meant to give the same result whatever order the
  runtime visits the entries of its maps in. It does not when a rename entry maps a path
  of the before summary onto another key of the before summary: both rounds of the first
  loop write the same key and the later one wins. The two lists below are the same map
  \<open>{/a: [1, 2], /b: [0, 2]}\<close> visited in the two possible orders.
\<close>

theorem iteration_order_changes_result:
  "GetResultsDiff [(''/a'', [1, 2]), (''/b'', [0, 2])] [(''/b'', [2, 2])]
     \<lparr>Added = False, Deleted = False, Changed = True, Unchanged = False\<rparr> None
     (Some [(''/a'', ''/b'')]) = Some [''/b'' \<mapsto> [2, 0, 0]] \<and>
   GetResultsDiff [(''/b'', [0, 2]), (''/a'', [1, 2])] [(''/b'', [2, 2])]
     \<lparr>Added = False, Deleted = False, Changed = True, Unchanged = False\<rparr> None
     (Some [(''/a'', ''/b'')]) = Some [''/b'' \<mapsto> [1, 0, 0]]"
  by (simp add: GetResultsDiff_def beforeLoopBody_def changedBranch_def renamedTest_def
      anyPathMatches_def word_sless_alt)


section \<open>Diff assembly: errors and rename resolution\<close>

text \<open>
  \<open>GetRunsDiff\<close> returns an error exactly when one of the two fetches fails, and the
  text of the error names the side. A failure to load the secret gives the nil rename
  map, and so does a failed comparison between revisions of at least seven characters.
\<close>

lemma GetRunsDiff_error_iff:
  "(\<exists>msg. GetRunsDiff c beforeRun afterRun flt paths = Some (Inl msg)) \<longleftrightarrow>
     isl (FetchRunResultsJSON c beforeRun) \<or> isl (FetchRunResultsJSON c afterRun)"
  by (cases "FetchRunResultsJSON c beforeRun"; cases "FetchRunResultsJSON c afterRun")
    (auto simp: GetRunsDiff_def split: Option.bind_splits)

lemma GetRunsDiff_error_text:
  "FetchRunResultsJSON c beforeRun = Inl e \<Longrightarrow>
     GetRunsDiff c beforeRun afterRun flt paths = Some (Inl (''Failed to fetch 'before' results: '' @ e))"
  "FetchRunResultsJSON c beforeRun = Inr beforeJSON \<Longrightarrow> FetchRunResultsJSON c afterRun = Inl e \<Longrightarrow>
     GetRunsDiff c beforeRun afterRun flt paths = Some (Inl (''Failed to fetch 'after' results: '' @ e))"
  by (simp_all add: GetRunsDiff_def)

lemma getDiffRenames_failure_is_nil:
  "shaBefore \<noteq> shaAfter \<Longrightarrow> GetSecret c ''github-api-token'' = Inl e \<Longrightarrow>
     getDiffRenames c shaBefore shaAfter = Some None"
  "7 \<le> length shaBefore \<Longrightarrow> 7 \<le> length shaAfter \<Longrightarrow>
   GetSecret c ''github-api-token'' = Inr secret \<Longrightarrow>
   CompareCommits c secret ''web-platform-tests'' ''wpt'' shaBefore shaAfter = (comparison, Some e) \<Longrightarrow>
     getDiffRenames c shaBefore shaAfter = Some None"
  by (simp_all add: getDiffRenames_def slice7_def)

text \<open>
  Claim C9. A failure of the rename resolution is meant to give the nil rename map and
  never to stop \<open>GetRunsDiff\<close>. When the comparison fails and a revision hash has fewer
  than seven characters, the arguments of the log call slice it with \<open>[:7]\<close>: the call
  panics, no rename map is returned and no diff is computed. Below, the before run has an
  empty full revision hash, both fetches succeed, the feature is enabled, the secret
  loads, and the comparison fails.
\<close>

theorem GetRunsDiff_panics_on_short_revision:
  "GetRunsDiff
     \<lparr>FetchRunResultsJSON = (\<lambda>run. Inr []),
      IsFeatureEnabled = (\<lambda>flag. True),
      GetSecret = (\<lambda>name. Inr ''token''),
      CompareCommits = (\<lambda>secret owner repo base head. (None, Some ''404 Not Found''))\<rparr>
     \<lparr>ResultsURL = ''https://example.org/before.json'', FullRevisionHash = ''''\<rparr>
     \<lparr>ResultsURL = ''https://example.org/after.json'',
      FullRevisionHash = ''0123456789abcdef0123456789abcdef01234567''\<rparr>
     \<lparr>Added = True, Deleted = True, Changed = True, Unchanged = False\<rparr> None
   = None"
  by (simp add: GetRunsDiff_def getDiffRenames_def slice7_def)

end
